theory Spec2Isabelle
  imports Complex_Main
begin

section \<open>Python primitives used by the retrieval code\<close>

text \<open>
  Exceptions are values. Only the exception classes that the modelled code can meet are
  listed; each carries the message that \<^verbatim>\<open>str(e)\<close> prints.
\<close>

datatype py_error = ValueError string | OSError string | RuntimeError string

fun str_of :: "py_error \<Rightarrow> string" where
  "str_of (ValueError m) = m"
| "str_of (OSError m) = m"
| "str_of (RuntimeError m) = m"

text \<open>
  \<^verbatim>\<open>range(start, stop, step)\<close>: a zero step raises ValueError, a positive step counts
  up while below \<open>stop\<close>, a negative step counts down while above \<open>stop\<close>.
\<close>

function range_up :: "int \<Rightarrow> int \<Rightarrow> int \<Rightarrow> int list" where
  "range_up i stop step =
     (if 0 < step \<and> i < stop then i # range_up (i + step) stop step else [])"
  by pat_completeness auto
termination
  by (relation "measure (\<lambda>(i, stop, step). nat (stop - i))") auto

function range_down :: "int \<Rightarrow> int \<Rightarrow> int \<Rightarrow> int list" where
  "range_down i stop step =
     (if step < 0 \<and> stop < i then i # range_down (i + step) stop step else [])"
  by pat_completeness auto
termination
  by (relation "measure (\<lambda>(i, stop, step). nat (i - stop))") auto

declare range_up.simps [simp del] range_down.simps [simp del]

definition py_range :: "int \<Rightarrow> int \<Rightarrow> int \<Rightarrow> py_error + int list" where
  "py_range start stop step =
     (if step = 0 then Inl (ValueError ''range() arg 3 must not be zero'')
      else if 0 < step then Inr (range_up start stop step)
      else Inr (range_down start stop step))"

text \<open>
  Slicing \<^verbatim>\<open>xs[lo:hi]\<close>: a negative bound counts from the end, and every bound is
  clamped into \<open>0..len(xs)\<close>; a slice never raises.
\<close>

definition slice_index :: "nat \<Rightarrow> int \<Rightarrow> nat" where
  "slice_index n i = nat (if i < 0 then max (i + int n) 0 else min i (int n))"

definition py_slice :: "'a list \<Rightarrow> int \<Rightarrow> int \<Rightarrow> 'a list" where
  "py_slice xs lo hi =
     (let l = slice_index (length xs) lo; h = slice_index (length xs) hi
      in take (h - l) (drop l xs))"

definition py_slice_to :: "'a list \<Rightarrow> int \<Rightarrow> 'a list" where
  "py_slice_to xs hi = take (slice_index (length xs) hi) xs"

definition py_slice_from :: "'a list \<Rightarrow> int \<Rightarrow> 'a list" where
  "py_slice_from xs lo = drop (slice_index (length xs) lo) xs"

text \<open>
  \<^verbatim>\<open>str.lower()\<close> on the ASCII letters (a \<open>char\<close> is a byte), \<^verbatim>\<open>str.lstrip('.')\<close>,
  \<^verbatim>\<open>str.startswith\<close>, \<^verbatim>\<open>str.rfind\<close> of one character (\<open>-1\<close> when absent) and
  \<^verbatim>\<open>sep.join\<close>.
\<close>

definition lower_char :: "char \<Rightarrow> char" where
  "lower_char c =
     (let n = (of_char c :: nat) in if 65 \<le> n \<and> n \<le> 90 then char_of (n + 32) else c)"

definition lower :: "string \<Rightarrow> string" where
  "lower = map lower_char"

fun lstrip_dots :: "string \<Rightarrow> string" where
  "lstrip_dots [] = []"
| "lstrip_dots (c # cs) = (if c = CHR ''.'' then lstrip_dots cs else c # cs)"


fun rfind_from :: "char \<Rightarrow> string \<Rightarrow> int \<Rightarrow> int \<Rightarrow> int" where
  "rfind_from c [] i found = found"
| "rfind_from c (x # xs) i found = rfind_from c xs (i + 1) (if x = c then i else found)"

definition rfind :: "char \<Rightarrow> string \<Rightarrow> int" where
  "rfind c p = rfind_from c p 0 (- 1)"

fun join :: "string \<Rightarrow> string list \<Rightarrow> string" where
  "join sep [] = []"
| "join sep [x] = x"
| "join sep (x # y # ys) = x @ sep @ join sep (y # ys)"

text \<open>
  \<^verbatim>\<open>os.path.splitext\<close> and \<^verbatim>\<open>os.path.basename\<close> of posixpath: the extension starts at the
  last dot of the last path component, unless only dots precede it there.
\<close>

definition splitext :: "string \<Rightarrow> string \<times> string" where
  "splitext p =
     (let sepIndex = rfind CHR ''/'' p; dotIndex = rfind CHR ''.'' p
      in if sepIndex < dotIndex
            \<and> list_ex (\<lambda>c. c \<noteq> CHR ''.'') (py_slice p (sepIndex + 1) dotIndex)
         then (py_slice_to p dotIndex, py_slice_from p dotIndex)
         else (p, []))"

definition basename :: "string \<Rightarrow> string" where
  "basename p = py_slice_from p (rfind CHR ''/'' p + 1)"

section \<open>The retrieval object of simple\_doc\_retrieval.py\<close>

record document =
  path :: string
  chunks :: "string list"
  full_text :: string

text \<open>
  \<open>documents\<close> is a Python dict: an association list in insertion order with unique keys.
  \<open>model\<close> is the name of the generation model the object was built with.
\<close>

record retrieval =
  api_key :: string
  model :: string
  temp_dir :: string
  documents :: "(string \<times> document) list"
  chunk_size :: int
  chunk_overlap :: int

text \<open>
  The constructor; \<open>tmp\<close> is what \<^verbatim>\<open>tempfile.gettempdir()\<close> returns, joined with the
  directory name as \<^verbatim>\<open>os.path.join\<close> does for a relative second part.
\<close>

definition path_join :: "string \<Rightarrow> string \<Rightarrow> string" where
  "path_join a b = (if a = [] \<or> last a = CHR ''/'' then a @ b else a @ ''/'' @ b)"

definition init :: "string \<Rightarrow> string \<Rightarrow> retrieval" where
  "init key tmp =
     \<lparr>api_key = key, model = ''gemini-1.5-pro'',
      temp_dir = path_join tmp ''simple_doc_retrieval'',
      documents = [], chunk_size = 1000, chunk_overlap = 200\<rparr>"

text \<open>\<^verbatim>\<open>d[k] = v\<close>: an existing key keeps its position, a new key goes to the end.\<close>

fun dict_set :: "('k \<times> 'v) list \<Rightarrow> 'k \<Rightarrow> 'v \<Rightarrow> ('k \<times> 'v) list" where
  "dict_set [] k v = [(k, v)]"
| "dict_set ((k', v') # kvs) k v =
     (if k' = k then (k, v) # kvs else (k', v') # dict_set kvs k v)"

subsection \<open>chunk\_text\<close>

text \<open>The body of the \<^verbatim>\<open>for i in range(...)\<close> loop, run over the indices in order.\<close>

fun chunk_loop :: "int \<Rightarrow> string \<Rightarrow> int list \<Rightarrow> string list \<Rightarrow> string list" where
  "chunk_loop sz text [] acc = acc"
| "chunk_loop sz text (i # is) acc =
     (let chunk = py_slice text i (i + sz)
      in chunk_loop sz text is (if chunk \<noteq> [] then acc @ [chunk] else acc))"

definition chunk_text :: "retrieval \<Rightarrow> string \<Rightarrow> py_error + string list" where
  "chunk_text s text =
     (if text = [] then Inr []
      else case py_range 0 (int (length text)) (chunk_size s - chunk_overlap s) of
             Inl e \<Rightarrow> Inl e
           | Inr is \<Rightarrow> Inr (chunk_loop (chunk_size s) text is []))"

text \<open>
  Reassembly as the specification words it: the first chunk, then every later chunk
  without its first \<open>overlap\<close> characters.
\<close>

fun reassemble :: "nat \<Rightarrow> 'a list list \<Rightarrow> 'a list" where
  "reassemble ov [] = []"
| "reassemble ov (c # cs) = c @ concat (map (drop ov) cs)"


subsection \<open>Text extraction\<close>

text \<open>
  What the libraries read from disk is a parameter: the pages of a PDF (opening the file
  or extracting a page may raise), the content of a text file, the paragraphs of a DOCX.
\<close>

record filesystem =
  pdf_pages :: "string \<Rightarrow> py_error + (py_error + string) list"
  read_text :: "string \<Rightarrow> py_error + string"
  docx_paragraphs :: "string \<Rightarrow> py_error + string list"

fun pdf_loop :: "(py_error + string) list \<Rightarrow> string \<Rightarrow> py_error + string" where
  "pdf_loop [] text = Inr text"
| "pdf_loop (Inl e # pages) text = Inl e"
| "pdf_loop (Inr t # pages) text = pdf_loop pages (text @ t @ ''\<newline>'')"

definition extract_from_pdf :: "filesystem \<Rightarrow> string \<Rightarrow> string" where
  "extract_from_pdf fs file_path =
     (case pdf_pages fs file_path of
        Inl e \<Rightarrow> []
      | Inr pages \<Rightarrow> (case pdf_loop pages [] of Inl e \<Rightarrow> [] | Inr text \<Rightarrow> text))"

definition extract_from_txt :: "filesystem \<Rightarrow> string \<Rightarrow> string" where
  "extract_from_txt fs file_path =
     (case read_text fs file_path of Inl e \<Rightarrow> [] | Inr text \<Rightarrow> text)"

definition extract_from_docx :: "filesystem \<Rightarrow> string \<Rightarrow> string" where
  "extract_from_docx fs file_path =
     (case docx_paragraphs fs file_path of
        Inl e \<Rightarrow> []
      | Inr paragraphs \<Rightarrow> join ''\<newline>'' paragraphs)"

definition extract_text_from_file :: "filesystem \<Rightarrow> string \<Rightarrow> string option" where
  "extract_text_from_file fs file_path =
     (let file_extension = lower (snd (splitext file_path))
      in if file_extension = ''.pdf'' then Some (extract_from_pdf fs file_path)
         else if file_extension = ''.txt'' then Some (extract_from_txt fs file_path)
         else if file_extension = ''.docx'' then Some (extract_from_docx fs file_path)
         else None)"

subsection \<open>add\_document, query, clear\<close>

text \<open>
  \<open>add_document\<close> returns its result together with the object after the call. A
  ValueError of \<open>chunk_text\<close> is caught by the method's handler before anything is stored.
\<close>

definition add_document :: "filesystem \<Rightarrow> retrieval \<Rightarrow> string \<Rightarrow> bool \<times> retrieval" where
  "add_document fs s file_path =
     (case extract_text_from_file fs file_path of
        None \<Rightarrow> (False, s)
      | Some document_text \<Rightarrow>
          if document_text = [] then (False, s)
          else (case chunk_text s document_text of
                  Inl e \<Rightarrow> (False, s)
                | Inr cs \<Rightarrow>
                    (True, s\<lparr>documents :=
                       dict_set (documents s) (basename file_path)
                         \<lparr>path = file_path, chunks = cs, full_text = document_text\<rparr>\<rparr>)))"

definition doc_block :: "string \<Rightarrow> document \<Rightarrow> string" where
  "doc_block doc_name doc_data =
     (case chunks doc_data of
        [] \<Rightarrow> []
      | c # cs \<Rightarrow>
          ''Document: '' @ doc_name @ ''\<newline>''
          @ ''Excerpt from beginning:\<newline>''
          @ py_slice_to c 500 @ ''...\<newline>\<newline>''
          @ (if 1 < length (chunks doc_data)
             then ''Excerpt from end:\<newline>''
                  @ ''...'' @ py_slice_from (last (chunks doc_data)) (- 500) @ ''\<newline>\<newline>''
             else []))"

definition build_context :: "retrieval \<Rightarrow> string" where
  "build_context s =
     foldl (\<lambda>context (doc_name, doc_data). context @ doc_block doc_name doc_data)
       ''Here are excerpts from relevant documents:\<newline>\<newline>'' (documents s)"

definition indent :: "nat \<Rightarrow> string" where
  "indent n = replicate n CHR '' ''"

definition query_prompt :: "string \<Rightarrow> string \<Rightarrow> string" where
  "query_prompt context question =
     ''\<newline>'' @ indent 12
     @ ''I'll provide you with some context from documents, and then ask a question.\<newline>''
     @ indent 12 @ ''Please answer the question based on the context provided.\<newline>''
     @ indent 12 @ ''\<newline>''
     @ indent 12 @ ''Context:\<newline>''
     @ indent 12 @ context @ ''\<newline>''
     @ indent 12 @ ''\<newline>''
     @ indent 12 @ ''Question: '' @ question @ ''\<newline>''
     @ indent 12 @ ''\<newline>''
     @ indent 12
     @ ''Please provide a comprehensive answer. If the information is not found in the context, \<newline>''
     @ indent 12
     @ ''state that clearly and give a best guess based on your general knowledge.\<newline>''
     @ indent 12"

text \<open>
  The generation model is a parameter: given the model's name and a prompt it answers or
  raises. \<open>query\<close> returns its answer together with the prompts it sent to the model.
\<close>

definition query ::
  "(string \<Rightarrow> string \<Rightarrow> py_error + string) \<Rightarrow> retrieval \<Rightarrow> string \<Rightarrow> string \<times> string list"
where
  "query generate_content s question =
     (if documents s = [] then (''No documents have been added to the system.'', [])
      else let prompt = query_prompt (build_context s) question
           in case generate_content (model s) prompt of
                Inl e \<Rightarrow> (''Error querying documents: '' @ str_of e, [prompt])
              | Inr response \<Rightarrow> (response, [prompt]))"

definition clear :: "retrieval \<Rightarrow> bool \<times> retrieval" where
  "clear s = (True, s\<lparr>documents := []\<rparr>)"

text \<open>The objects a session can hold: a fresh one, and one after any call that changes it.\<close>

inductive reachable :: "retrieval \<Rightarrow> bool" where
  reachable_init: "reachable (init key tmp)"
| reachable_add: "reachable s \<Longrightarrow> reachable (snd (add_document fs s file_path))"
| reachable_clear: "reachable s \<Longrightarrow> reachable (snd (clear s))"

section \<open>FileProcessor.process\_file of utils/file\_processor.py\<close>

text \<open>
  The method returns a Python dict, kept as an association list from keys to values.
\<close>

datatype py_value = PyBool bool | PyStr string | PyInt int | PyDict "(string \<times> py_value) list"

datatype handler =
  ProcessPdf | ProcessText | ProcessImage | ProcessAudio | ProcessVideo | ProcessDocx
| ProcessPptx

definition supported_extensions :: "(string \<times> handler) list" where
  "supported_extensions =
     [(''pdf'', ProcessPdf), (''txt'', ProcessText), (''png'', ProcessImage),
      (''jpg'', ProcessImage), (''jpeg'', ProcessImage), (''mp3'', ProcessAudio),
      (''wav'', ProcessAudio), (''mp4'', ProcessVideo), (''docx'', ProcessDocx),
      (''pptx'', ProcessPptx)]"

text \<open>
  The handlers call the PDF, image, audio, video and office libraries; what a handler
  returns (or raises) for a path is the parameter \<open>run_handler\<close>.
\<close>

definition process_file ::
  "(handler \<Rightarrow> string \<Rightarrow> py_error + (string \<times> py_value) list) \<Rightarrow> string
     \<Rightarrow> (string \<times> py_value) list"
where
  "process_file run_handler file_path =
     (let ext = lower (lstrip_dots (snd (splitext file_path)))
      in case map_of supported_extensions ext of
           None \<Rightarrow>
             [(''success'', PyBool False),
              (''error'', PyStr (''Unsupported file type: '' @ ext)),
              (''file_path'', PyStr file_path)]
         | Some processor_func \<Rightarrow>
             (case run_handler processor_func file_path of
                Inl e \<Rightarrow>
                  [(''success'', PyBool False), (''error'', PyStr (str_of e)),
                   (''file_path'', PyStr file_path)]
              | Inr result \<Rightarrow>
                  dict_set (dict_set result ''file_path'' (PyStr file_path))
                    ''file_type'' (PyStr ext)))"

section \<open>GeminiHandler.generate\_multimodal\_response of utils/gemini\_handler.py\<close>

text \<open>
  A request to the multimodal model is a list of parts: text, or inline data with its MIME
  type. The surroundings of the call are parameters: the table of \<^verbatim>\<open>mimetypes.guess_type\<close>,
  the bytes read from the media file (reading may raise) and the multimodal model.
\<close>

datatype part = TextPart string | InlineData string string

record gemini_env =
  guess_type :: "string \<Rightarrow> string option"
  read_bytes :: "string \<Rightarrow> py_error + string"
  generate_content :: "part list \<Rightarrow> py_error + string"





section \<open>Example sessions\<close>

text \<open>
  A small file system, a session that has ingested one of its files, a session with a given
  chunking configuration, and the surroundings of a multimodal call.
\<close>

definition two_files :: filesystem where
  "two_files =
     \<lparr>pdf_pages = (\<lambda>p. Inl (OSError ''not a pdf'')),
      read_text = (\<lambda>p. if p = ''/a/notes.txt'' then Inr ''hello''
                         else if p = ''/b/notes.txt'' then Inr (replicate 801 CHR ''x'')
                         else if p = ''/c/notes.txt'' then Inr ''goodbye''
                         else if p = ''/a/empty.txt'' then Inr []
                         else Inl (OSError ''No such file or directory'')),
      docx_paragraphs = (\<lambda>p. Inl (OSError ''not a docx''))\<rparr>"

definition one_doc :: retrieval where
  "one_doc = snd (add_document two_files (init ''key'' ''/tmp'') ''/a/notes.txt'')"

definition with_config :: "int \<Rightarrow> int \<Rightarrow> retrieval" where
  "with_config sz ov = (init ''key'' ''/tmp'')\<lparr>chunk_size := sz, chunk_overlap := ov\<rparr>"


section \<open>Properties of the chunker\<close>

lemma chunk_loop_append:
  "chunk_loop sz text is acc = acc @ filter (\<lambda>c. c \<noteq> []) (map (\<lambda>i. py_slice text i (i + sz)) is)"
  by (induction "is" arbitrary: acc) (simp_all add: Let_def)

lemma py_slice_window:
  "0 \<le> i \<Longrightarrow> 0 \<le> sz \<Longrightarrow> py_slice xs i (i + sz) = take (nat sz) (drop (nat i) xs)"
  by (auto simp: py_slice_def slice_index_def Let_def min_def nat_diff_distrib nat_add_distrib)

lemma range_up_bounds:
  "j \<in> set (range_up i stop step) \<Longrightarrow> i \<le> j \<and> j < stop"
proof (induction i stop step rule: range_up.induct)
  case (1 i stop step)
  show ?case
  proof (cases "0 < step \<and> i < stop")
    case True
    with "1.prems" have "j = i \<or> j \<in> set (range_up (i + step) stop step)"
      by (simp add: range_up.simps [of i stop step])
    with True "1.IH" show ?thesis by auto
  next
    case False
    with "1.prems" show ?thesis by (simp add: range_up.simps [of i stop step])
  qed
qed

lemma range_up_length:
  "0 < step \<Longrightarrow> int (length (range_up i stop step)) = max 0 (- ((i - stop) div step))"
proof (induction i stop step rule: range_up.induct)
  case (1 i stop step)
  show ?case
  proof (cases "i < stop")
    case True
    have "(i + step - stop) div step = (i - stop) div step + 1"
      using "1.prems" by (metis add.commute add_diff_eq div_add_self1 less_irrefl)
    moreover have "(i - stop) div step < 0" using True "1.prems"
      by (simp add: pos_imp_zdiv_neg_iff)
    ultimately show ?thesis using True "1.prems" "1.IH" by (simp add: range_up.simps [of i stop step])
  next
    case False
    then have "0 \<le> (i - stop) div step" using "1.prems" by (simp add: pos_imp_zdiv_nonneg_iff)
    with False show ?thesis by (simp add: range_up.simps [of i stop step])
  qed
qed


lemma range_up_nonempty_slices:
  assumes "0 < sz" "0 \<le> i"
  shows "filter (\<lambda>c. c \<noteq> []) (map (\<lambda>j. py_slice text j (j + sz)) (range_up i (int (length text)) step))
         = map (\<lambda>j. py_slice text j (j + sz)) (range_up i (int (length text)) step)"
proof -
  have "py_slice text j (j + sz) \<noteq> []" if "j \<in> set (range_up i (int (length text)) step)" for j
  proof -
    from range_up_bounds [OF that] \<open>0 \<le> i\<close> have "0 \<le> j" "j < int (length text)" by auto
    then show ?thesis using assms by (simp add: py_slice_window)
  qed
  then show ?thesis by (simp add: filter_id_conv)
qed

lemma drop_overlap_windows:
  assumes "0 < step" "0 \<le> ov" "0 \<le> i"
  shows "concat (map (drop (nat ov)) (map (\<lambda>j. py_slice text j (j + (step + ov))) (range_up i (int (length text)) step)))
         = drop (nat (i + ov)) text"
  using assms
proof (induction i "int (length text)" step rule: range_up.induct)
  case (1 i step)
  show ?case
  proof (cases "i < int (length text)")
    case True
    have win: "drop (nat ov) (py_slice text i (i + (step + ov))) = take (nat step) (drop (nat (i + ov)) text)"
      using "1.prems" by (simp add: py_slice_window drop_take nat_add_distrib add.commute nat_diff_distrib)
    have rest: "concat (map (drop (nat ov)) (map (\<lambda>j. py_slice text j (j + (step + ov))) (range_up (i + step) (int (length text)) step)))
         = drop (nat (i + step + ov)) text"
      using "1.hyps" True "1.prems" by simp
    have "take (nat step) (drop (nat (i + ov)) text) @ drop (nat (i + step + ov)) text = drop (nat (i + ov)) text"
    proof -
      have "nat (i + step + ov) = nat step + nat (i + ov)" using "1.prems" by (simp add: nat_add_distrib)
      then have "drop (nat (i + step + ov)) text = drop (nat step) (drop (nat (i + ov)) text)" by simp
      then show ?thesis by (simp only: append_take_drop_id)
    qed
    with win rest True "1.prems" show ?thesis by (simp add: range_up.simps [of i "int (length text)" step])
  next
    case False
    then show ?thesis using "1.prems" by (simp add: range_up.simps [of i "int (length text)" step])
  qed
qed


lemma chunk_text_valid:
  assumes "0 \<le> chunk_overlap s" "chunk_overlap s < chunk_size s"
  shows "chunk_text s text =
           Inr (map (\<lambda>j. py_slice text j (j + chunk_size s))
                  (range_up 0 (int (length text)) (chunk_size s - chunk_overlap s)))"
proof (cases "text = []")
  case True
  then show ?thesis by (simp add: chunk_text_def range_up.simps [of 0 0])
next
  case False
  with assms show ?thesis
    by (simp add: chunk_text_def py_range_def chunk_loop_append range_up_nonempty_slices)
qed

text \<open>
  C2. For every text and every configuration with \<open>chunk_size > chunk_overlap \<ge> 0\<close>,
  \<open>chunk_text\<close> returns a list of chunks none of which is empty, whose length is the
  ceiling of the text length divided by \<open>chunk_size - chunk_overlap\<close> (zero for the empty
  text), and which reassembles to the text: the first chunk followed by every later chunk
  without its first \<open>chunk_overlap\<close> characters.
\<close>

theorem chunk_text_total_covering:
  assumes "0 \<le> chunk_overlap s" and "chunk_overlap s < chunk_size s"
  shows "\<exists>cs. chunk_text s text = Inr cs
           \<and> [] \<notin> set cs
           \<and> int (length cs) = \<lceil>real (length text) / real_of_int (chunk_size s - chunk_overlap s)\<rceil>
           \<and> reassemble (nat (chunk_overlap s)) cs = text"
proof -
  define step where "step = chunk_size s - chunk_overlap s"
  define cs where "cs = map (\<lambda>j. py_slice text j (j + chunk_size s)) (range_up 0 (int (length text)) step)"
  have step: "0 < step" and sz: "0 < chunk_size s" "chunk_size s = step + chunk_overlap s"
    using assms by (simp_all add: step_def)
  have run: "chunk_text s text = Inr cs"
    using chunk_text_valid [OF assms] by (simp add: cs_def step_def)
  have nonempty: "[] \<notin> set cs"
  proof
    assume "[] \<in> set cs"
    then obtain j where j: "j \<in> set (range_up 0 (int (length text)) step)"
      and e: "py_slice text j (j + chunk_size s) = []"
      by (auto simp: cs_def)
    from range_up_bounds [OF j] have "0 \<le> j" "j < int (length text)" by auto
    with e sz(1) show False by (simp add: py_slice_window)
  qed
  have count: "int (length cs) = \<lceil>real (length text) / real_of_int step\<rceil>"
  proof -
    have "int (length cs) = max 0 (- ((- int (length text)) div step))"
      using range_up_length [OF step, of 0 "int (length text)"] by (simp add: cs_def)
    also have "\<dots> = - ((- int (length text)) div step)"
      using step div_nonpos_pos_le0 [of "- int (length text)" step] by simp
    also have "\<dots> = \<lceil>real_of_int (int (length text)) / real_of_int step\<rceil>"
      by (simp only: ceiling_divide_eq_div)
    finally show ?thesis by simp
  qed
  have whole: "reassemble (nat (chunk_overlap s)) cs = text"
  proof (cases "text = []")
    case True
    then show ?thesis by (simp add: cs_def range_up.simps [of 0 0])
  next
    case False
    then have first_step: "range_up 0 (int (length text)) step = 0 # range_up step (int (length text)) step"
      using step by (simp add: range_up.simps [of 0])
    have rest_eq: "concat (map (drop (nat (chunk_overlap s)))
                  (map (\<lambda>j. py_slice text j (j + (step + chunk_overlap s))) (range_up step (int (length text)) step)))
                = drop (nat (step + chunk_overlap s)) text"
      using drop_overlap_windows [of step "chunk_overlap s" step "text"] step assms(1) by simp
    have "py_slice text 0 (0 + chunk_size s) = take (nat (chunk_size s)) text"
      using sz(1) by (simp only: py_slice_window [of 0 "chunk_size s" "text"]) simp
    with rest_eq sz(2) first_step show ?thesis by (simp add: cs_def)
  qed
  from run nonempty count whole show ?thesis by (auto simp: step_def)
qed

text \<open>
  C3. The text "hello world" with chunk size 5 and overlap 1 is chunked into exactly
  "hello", "o wor", "rld", in that order.
\<close>

theorem chunk_text_hello_world:
  "chunk_text (s\<lparr>chunk_size := 5, chunk_overlap := 1\<rparr>) ''hello world''
     = Inr [''hello'', ''o wor'', ''rld'']"
  by (simp add: chunk_text_def py_range_def range_up.simps py_slice_def slice_index_def)

lemma range_down_empty: "stop \<ge> i \<Longrightarrow> range_down i stop step = []"
  by (simp add: range_down.simps [of i stop step])

text \<open>
  C4, as the code has it. \<open>chunk_text\<close> validates nothing. For a configuration with
  \<open>chunk_size \<le> chunk_overlap\<close> or \<open>chunk_overlap < 0\<close> it still returns: the empty list
  for the empty text; for a non-empty text, the ValueError of \<^verbatim>\<open>range\<close> when the two
  are equal (a zero step), the empty list when \<open>chunk_size < chunk_overlap\<close> (a negative
  step), and otherwise (a negative overlap below the size) the non-empty windows of
  \<open>chunk_size\<close> characters taken every \<open>chunk_size - chunk_overlap\<close> characters.
\<close>

theorem chunk_text_unvalidated:
  assumes "chunk_size s \<le> chunk_overlap s \<or> chunk_overlap s < 0"
  shows "chunk_text s text =
           (if text = [] then Inr []
            else if chunk_size s = chunk_overlap s
            then Inl (ValueError ''range() arg 3 must not be zero'')
            else if chunk_size s < chunk_overlap s then Inr []
            else Inr (filter (\<lambda>c. c \<noteq> [])
                        (map (\<lambda>i. py_slice text i (i + chunk_size s))
                           (range_up 0 (int (length text)) (chunk_size s - chunk_overlap s)))))"
  by (simp add: chunk_text_def py_range_def range_down_empty chunk_loop_append)

section \<open>Properties of the document store\<close>

lemma dict_set_keys:
  "map_of kvs k = Some v0 \<Longrightarrow> map fst (dict_set kvs k v) = map fst kvs"
  by (induction kvs) (auto split: if_splits)

lemma dict_set_lookup: "map_of (dict_set kvs k v) k = Some v"
  by (induction kvs) auto

lemma dict_set_other: "k' \<noteq> k \<Longrightarrow> map_of (dict_set kvs k v) k' = map_of kvs k'"
  by (induction kvs) auto

lemma dict_set_same:
  "map_of kvs k = Some v0 \<Longrightarrow> dict_set kvs k v = kvs \<longleftrightarrow> v = v0"
  by (induction kvs) (auto split: if_splits)

lemma dict_set_values: "set (dict_set kvs k v) \<subseteq> insert (k, v) (set kvs)"
  by (induction kvs) (auto split: if_splits)

lemma retrieval_documents_eq:
  "s\<lparr>documents := ds\<rparr> = s \<longleftrightarrow> ds = documents s"
  by (cases s) auto

text \<open>
  C1, as the code has it. When a document named like the file's basename is already
  stored and the file yields non-empty text that is chunked without error, \<open>add_document\<close>
  does not reject: it reports success and stores the new path, chunks and full text under
  that name, at the position the name already had; the names in the store (so the document
  count) and every other entry stay as they were. The object is unchanged exactly when
  the new document equals the stored one.
\<close>

theorem add_document_replaces_existing:
  assumes present: "map_of (documents s) (basename file_path) = Some old"
    and extracted: "extract_text_from_file fs file_path = Some document_text"
    and nonempty: "document_text \<noteq> []"
    and chunked: "chunk_text s document_text = Inr cs"
  shows "fst (add_document fs s file_path) = True
         \<and> map_of (documents (snd (add_document fs s file_path))) (basename file_path)
             = Some \<lparr>path = file_path, chunks = cs, full_text = document_text\<rparr>
         \<and> map fst (documents (snd (add_document fs s file_path))) = map fst (documents s)
         \<and> (\<forall>k. k \<noteq> basename file_path \<longrightarrow>
               map_of (documents (snd (add_document fs s file_path))) k = map_of (documents s) k)
         \<and> (snd (add_document fs s file_path) = s
               \<longleftrightarrow> old = \<lparr>path = file_path, chunks = cs, full_text = document_text\<rparr>)"
proof -
  let ?new = "\<lparr>path = file_path, chunks = cs, full_text = document_text\<rparr>"
  have run: "add_document fs s file_path
               = (True, s\<lparr>documents := dict_set (documents s) (basename file_path) ?new\<rparr>)"
    using extracted nonempty chunked by (simp add: add_document_def)
  have same: "dict_set (documents s) (basename file_path) ?new = documents s \<longleftrightarrow> ?new = old"
    using dict_set_same [OF present] .
  show ?thesis
    using run same dict_set_keys [OF present]
    by (auto simp: dict_set_lookup dict_set_other retrieval_documents_eq)
qed

lemma range_up_first:
  "0 < step \<Longrightarrow> i < stop \<Longrightarrow> range_up i stop step \<noteq> []"
  by (simp add: range_up.simps [of i stop step])

lemma chunk_text_valid_nonempty:
  assumes "0 \<le> chunk_overlap s" "chunk_overlap s < chunk_size s" "text \<noteq> []"
    and "chunk_text s text = Inr cs"
  shows "cs \<noteq> []"
proof -
  have "range_up 0 (int (length text)) (chunk_size s - chunk_overlap s) \<noteq> []"
    using assms(2,3) by (intro range_up_first) simp_all
  with assms(4) chunk_text_valid [OF assms(1,2), of "text"] show ?thesis by auto
qed

lemma add_document_entries:
  assumes "(n, d) \<in> set (documents (snd (add_document fs s file_path)))"
  shows "(n, d) \<in> set (documents s)
         \<or> (full_text d \<noteq> [] \<and> chunk_text s (full_text d) = Inr (chunks d))"
proof (cases "add_document fs s file_path = (False, s)")
  case True
  with assms show ?thesis by simp
next
  case False
  then obtain t cs where t: "extract_text_from_file fs file_path = Some t" "t \<noteq> []"
    and cs: "chunk_text s t = Inr cs"
    and run: "add_document fs s file_path
                = (True, s\<lparr>documents := dict_set (documents s) (basename file_path)
                     \<lparr>path = file_path, chunks = cs, full_text = t\<rparr>\<rparr>)"
    by (auto simp: add_document_def split: option.splits if_splits sum.splits)
  from assms run dict_set_values [of "documents s" "basename file_path"
      "\<lparr>path = file_path, chunks = cs, full_text = t\<rparr>"]
  have "(n, d) \<in> set (documents s) \<or> d = \<lparr>path = file_path, chunks = cs, full_text = t\<rparr>"
    by auto
  with t cs show ?thesis by auto
qed

lemma add_document_config:
  "chunk_size (snd (add_document fs s file_path)) = chunk_size s
   \<and> chunk_overlap (snd (add_document fs s file_path)) = chunk_overlap s"
  by (simp add: add_document_def split: option.splits sum.splits)

lemma reachable_config: "reachable s \<Longrightarrow> chunk_size s = 1000 \<and> chunk_overlap s = 200"
  by (induction rule: reachable.induct) (simp_all add: init_def add_document_config clear_def)

lemma reachable_documents:
  "reachable s \<Longrightarrow> (n, d) \<in> set (documents s) \<Longrightarrow> full_text d \<noteq> [] \<and> chunks d \<noteq> []"
proof (induction arbitrary: n d rule: reachable.induct)
  case (reachable_init key tmp)
  then show ?case by (simp add: init_def)
next
  case (reachable_add s fs file_path)
  from add_document_entries [OF reachable_add.prems]
  show ?case
  proof
    assume "(n, d) \<in> set (documents s)"
    then show ?thesis by (rule reachable_add.IH)
  next
    assume new: "full_text d \<noteq> [] \<and> chunk_text s (full_text d) = Inr (chunks d)"
    from reachable_config [OF reachable_add.hyps]
    have "0 \<le> chunk_overlap s" "chunk_overlap s < chunk_size s" by simp_all
    with new show ?thesis by (auto dest: chunk_text_valid_nonempty)
  qed
next
  case (reachable_clear s)
  then show ?case by (simp add: clear_def)
qed

text \<open>
  C5. When extraction yields the empty text, \<open>add_document\<close> reports failure and leaves the
  object as it was, whatever the store holds, so the document count is the same before and
  after; and no session ever holds a document whose full text is empty.
\<close>

theorem add_document_rejects_empty_text:
  assumes "extract_text_from_file fs file_path = Some []" and "reachable s0"
  shows "add_document fs s file_path = (False, s)
         \<and> length (documents (snd (add_document fs s file_path))) = length (documents s)
         \<and> (\<forall>(n, d) \<in> set (documents s0). full_text d \<noteq> [])"
  using assms reachable_documents [OF assms(2)] by (auto simp: add_document_def)

section \<open>Properties of query and clear\<close>

text \<open>
  C6. With no document in the store, \<open>query\<close> answers every question with the fixed
  sentence "No documents have been added to the system." and sends nothing to the
  generation model.
\<close>

theorem query_without_documents:
  assumes "documents s = []"
  shows "query generate s question = (''No documents have been added to the system.'', [])"
  using assms by (simp add: query_def)

lemma context_loop:
  "foldl (\<lambda>context (doc_name, doc_data). context @ doc_block doc_name doc_data) acc docs
     = acc @ concat (map (\<lambda>(doc_name, doc_data). doc_block doc_name doc_data) docs)"
  by (induction docs arbitrary: acc) (auto simp: case_prod_beta)

lemma py_slice_to_take: "0 \<le> k \<Longrightarrow> py_slice_to xs k = take (nat k) xs"
  by (auto simp: py_slice_to_def slice_index_def min_def)

lemma py_slice_from_last: "0 < k \<Longrightarrow> py_slice_from xs (- k) = drop (length xs - nat k) xs"
  by (auto simp: py_slice_from_def slice_index_def max_def nat_diff_distrib intro: arg_cong [where f = "\<lambda>n. drop n xs"])

text \<open>
  C7. The assembled context is the heading followed by the blocks of the stored documents
  in store order, and nothing else. For every stored document of a session (and for any
  stored document that has a chunk) the block is exactly: the line with the document's
  name, the beginning excerpt made of the first chunk cut to 500 characters, and then the
  end excerpt (the last 500 characters of the last chunk) when the document has more than
  one chunk, and nothing when it has one chunk.
\<close>

theorem context_block_per_document:
  assumes "(doc_name, doc_data) \<in> set (documents s)"
    and "reachable s \<or> chunks doc_data \<noteq> []"
  shows "build_context s
           = ''Here are excerpts from relevant documents:\<newline>\<newline>''
             @ concat (map (\<lambda>(n, d). doc_block n d) (documents s))
         \<and> (\<exists>c cs. chunks doc_data = c # cs
               \<and> doc_block doc_name doc_data
                   = ''Document: '' @ doc_name @ ''\<newline>''
                     @ ''Excerpt from beginning:\<newline>'' @ take 500 c @ ''...\<newline>\<newline>''
                     @ (if 1 < length (chunks doc_data)
                        then ''Excerpt from end:\<newline>'' @ ''...''
                             @ drop (length (last (chunks doc_data)) - 500)
                                 (last (chunks doc_data))
                             @ ''\<newline>\<newline>''
                        else []))"
proof -
  from assms have "chunks doc_data \<noteq> []"
    by (auto dest: reachable_documents)
  then obtain c cs where ch: "chunks doc_data = c # cs"
    by (cases "chunks doc_data") auto
  have whole: "build_context s
           = ''Here are excerpts from relevant documents:\<newline>\<newline>''
             @ concat (map (\<lambda>(n, d). doc_block n d) (documents s))"
    by (simp add: build_context_def context_loop)
  have block: "doc_block doc_name doc_data
          = ''Document: '' @ doc_name @ ''\<newline>''
            @ ''Excerpt from beginning:\<newline>'' @ take 500 c @ ''...\<newline>\<newline>''
            @ (if 1 < length (chunks doc_data)
               then ''Excerpt from end:\<newline>'' @ ''...''
                    @ drop (length (last (chunks doc_data)) - 500) (last (chunks doc_data))
                    @ ''\<newline>\<newline>''
               else [])"
    using ch by (simp add: doc_block_def py_slice_to_take py_slice_from_last)
  from whole block ch show ?thesis by blast
qed

text \<open>
  C10. \<open>clear\<close> returns true and empties the documents, so that the document count is zero
  and the next \<open>query\<close> answers with the no-documents sentence without calling the model;
  the API key, the model, the temporary directory and the chunking parameters stay as
  they were.
\<close>

theorem clear_empties_documents_only:
  "fst (clear s) = True
   \<and> documents (snd (clear s)) = []
   \<and> length (documents (snd (clear s))) = 0
   \<and> query generate (snd (clear s)) question
       = (''No documents have been added to the system.'', [])
   \<and> api_key (snd (clear s)) = api_key s
   \<and> model (snd (clear s)) = model s
   \<and> temp_dir (snd (clear s)) = temp_dir s
   \<and> chunk_size (snd (clear s)) = chunk_size s
   \<and> chunk_overlap (snd (clear s)) = chunk_overlap s"
  by (simp add: clear_def query_def)

section \<open>Unsupported file types\<close>

lemma lower_char_dot: "lower_char a = CHR ''.'' \<longleftrightarrow> a = CHR ''.''"
proof
  assume h: "lower_char a = CHR ''.''"
  show "a = CHR ''.''"
  proof (cases "65 \<le> (of_char a :: nat) \<and> (of_char a :: nat) \<le> 90")
    case True
    then have "lower_char a = char_of ((of_char a :: nat) + 32)" by (simp add: lower_char_def)
    with h have "(of_char (char_of ((of_char a :: nat) + 32)) :: nat) = of_char CHR ''.''" by simp
    with True show ?thesis by (simp add: of_char_of)
  next
    case False
    with h show ?thesis by (auto simp: lower_char_def Let_def)
  qed
next
  assume "a = CHR ''.''"
  then show "lower_char a = CHR ''.''" by (simp add: lower_char_def)
qed

lemma lower_dotted_ext:
  assumes "lower e = CHR ''.'' # x # xs" and "x \<noteq> CHR ''.''"
  shows "lower (lstrip_dots e) = x # xs"
proof -
  from assms(1) obtain a b bs where e: "e = a # b # bs"
    and a: "lower_char a = CHR ''.''" and b: "lower_char b = x" and bs: "map lower_char bs = xs"
    by (auto simp: lower_def)
  from a have "a = CHR ''.''" by (simp add: lower_char_dot)
  moreover from b assms(2) have "b \<noteq> CHR ''.''" using lower_char_dot by auto
  ultimately show ?thesis using e b bs by (simp add: lower_def)
qed

lemma unsupported_not_text_extension:
  assumes "map_of supported_extensions (lower (lstrip_dots e)) = None"
  shows "lower e \<noteq> ''.pdf'' \<and> lower e \<noteq> ''.txt'' \<and> lower e \<noteq> ''.docx''"
proof -
  have "map_of supported_extensions (lower (lstrip_dots e)) \<noteq> None"
    if "lower e = ''.pdf'' \<or> lower e = ''.txt'' \<or> lower e = ''.docx''"
  proof -
    from that have "lower (lstrip_dots e) = ''pdf'' \<or> lower (lstrip_dots e) = ''txt''
        \<or> lower (lstrip_dots e) = ''docx''"
      by (auto dest: lower_dotted_ext)
    then show ?thesis by (auto simp: supported_extensions_def)
  qed
  with assms show ?thesis by blast
qed

text \<open>
  C8. A path whose extension is none of the supported ones is rejected before any chunking:
  \<open>extract_text_from_file\<close> returns \<open>None\<close>, \<open>process_file\<close> returns the record with
  \<open>success = False\<close> and the error "Unsupported file type: " followed by the extension,
  and \<open>add_document\<close> reports failure and leaves the store, hence the document count,
  unchanged.
\<close>

theorem unsupported_extension_rejected:
  assumes "map_of supported_extensions (lower (lstrip_dots (snd (splitext file_path)))) = None"
  shows "extract_text_from_file fs file_path = None
         \<and> process_file run_handler file_path
             = [(''success'', PyBool False),
                (''error'', PyStr (''Unsupported file type: ''
                                   @ lower (lstrip_dots (snd (splitext file_path))))),
                (''file_path'', PyStr file_path)]
         \<and> add_document fs s file_path = (False, s)
         \<and> length (documents (snd (add_document fs s file_path))) = length (documents s)"
proof -
  from unsupported_not_text_extension [OF assms]
  have none: "extract_text_from_file fs file_path = None"
    by (simp add: extract_text_from_file_def)
  then have "add_document fs s file_path = (False, s)" by (simp add: add_document_def)
  moreover have "process_file run_handler file_path
             = [(''success'', PyBool False),
                (''error'', PyStr (''Unsupported file type: ''
                                   @ lower (lstrip_dots (snd (splitext file_path))))),
                (''file_path'', PyStr file_path)]"
    using assms by (simp add: process_file_def)
  ultimately show ?thesis using none by simp
qed

section \<open>The multimodal request\<close>


section \<open>The properties on the example sessions\<close>

lemma one_doc_documents:
  "documents one_doc
     = [(''notes.txt'', \<lparr>path = ''/a/notes.txt'', chunks = [''hello''], full_text = ''hello''\<rparr>)]"
  by code_simp

lemma one_doc_config: "chunk_size one_doc = 1000 \<and> chunk_overlap one_doc = 200"
  by (simp add: one_doc_def add_document_config init_def)

lemma one_doc_reachable: "reachable one_doc"
  unfolding one_doc_def by (rule reachable_add [OF reachable_init])

lemma notes_b_extracted:
  "extract_text_from_file two_files ''/b/notes.txt'' = Some (replicate 801 CHR ''x'')"
  by (simp add: extract_text_from_file_def extract_from_txt_def two_files_def splitext_def
      rfind_def py_slice_def py_slice_to_def py_slice_from_def slice_index_def lower_def
      lower_char_def)

lemma notes_basename:
  "basename ''/b/notes.txt'' = ''notes.txt''" "basename ''/c/notes.txt'' = ''notes.txt''"
  by (simp_all add: basename_def rfind_def py_slice_from_def slice_index_def)

lemma notes_b_chunks:
  "\<exists>cs. chunk_text one_doc (replicate 801 CHR ''x'') = Inr cs \<and> length cs = 2"
proof -
  have "range_up 0 801 800 = [0, 800]"
    by (simp add: range_up.simps)
  then show ?thesis
    using chunk_text_valid [of one_doc "replicate 801 CHR ''x''"] one_doc_config by simp
qed

theorem add_document_duplicate_counterexample:
  "map (\<lambda>(n, d). (n, path d, length (chunks d))) (documents one_doc)
     = [(''notes.txt'', ''/a/notes.txt'', 1)]
   \<and> basename ''/b/notes.txt'' = ''notes.txt''
   \<and> fst (add_document two_files one_doc ''/b/notes.txt'') = True
   \<and> map (\<lambda>(n, d). (n, path d, length (chunks d)))
         (documents (snd (add_document two_files one_doc ''/b/notes.txt'')))
       = [(''notes.txt'', ''/b/notes.txt'', 2)]"
proof -
  from notes_b_chunks obtain cs
    where cs: "chunk_text one_doc (replicate 801 CHR ''x'') = Inr cs" "length cs = 2" by blast
  then show ?thesis
    by (simp add: add_document_def notes_b_extracted notes_basename one_doc_documents)
qed

theorem add_document_replaces_existing_witness:
  "map_of (documents one_doc) (basename ''/c/notes.txt'')
     = Some \<lparr>path = ''/a/notes.txt'', chunks = [''hello''], full_text = ''hello''\<rparr>
   \<and> extract_text_from_file two_files ''/c/notes.txt'' = Some ''goodbye''
   \<and> chunk_text one_doc ''goodbye'' = Inr [''goodbye'']
   \<and> fst (add_document two_files one_doc ''/c/notes.txt'') = True
   \<and> map_of (documents (snd (add_document two_files one_doc ''/c/notes.txt''))) ''notes.txt''
       = Some \<lparr>path = ''/c/notes.txt'', chunks = [''goodbye''], full_text = ''goodbye''\<rparr>
   \<and> map fst (documents (snd (add_document two_files one_doc ''/c/notes.txt'')))
       = [''notes.txt'']
   \<and> snd (add_document two_files one_doc ''/c/notes.txt'') \<noteq> one_doc"
proof -
  have present: "map_of (documents one_doc) (basename ''/c/notes.txt'')
     = Some \<lparr>path = ''/a/notes.txt'', chunks = [''hello''], full_text = ''hello''\<rparr>"
    by (simp add: one_doc_documents notes_basename)
  have extracted: "extract_text_from_file two_files ''/c/notes.txt'' = Some ''goodbye''"
    by code_simp
  have nonempty: "''goodbye'' \<noteq> []" by simp
  have chunked: "chunk_text one_doc ''goodbye'' = Inr [''goodbye'']"
    by code_simp
  from add_document_replaces_existing [OF present extracted nonempty chunked]
  show ?thesis
    using present extracted chunked by (simp add: notes_basename one_doc_documents)
qed

theorem chunk_text_total_covering_witness:
  "0 \<le> chunk_overlap (with_config 5 3)
   \<and> chunk_overlap (with_config 5 3) < chunk_size (with_config 5 3)
   \<and> (\<exists>cs. chunk_text (with_config 5 3) ''hello world'' = Inr cs
          \<and> [] \<notin> set cs \<and> int (length cs) = 6 \<and> reassemble 3 cs = ''hello world'')"
  using chunk_text_total_covering [of "with_config 5 3" "''hello world''"]
  by (simp add: with_config_def)

theorem chunk_text_unvalidated_witness:
  "(chunk_size (with_config 5 5) \<le> chunk_overlap (with_config 5 5)
      \<or> chunk_overlap (with_config 5 5) < 0)
   \<and> chunk_text (with_config 5 5) ''hello world''
       = Inl (ValueError ''range() arg 3 must not be zero'')"
  using chunk_text_unvalidated [of "with_config 5 5" "''hello world''"]
  by (simp add: with_config_def)

theorem chunk_text_unvalidated_counterexample:
  "chunk_size (with_config 5 10) \<le> chunk_overlap (with_config 5 10)
   \<and> chunk_text (with_config 5 10) ''hello world'' = Inr []
   \<and> chunk_overlap (with_config 5 (- 1)) < 0
   \<and> chunk_text (with_config 5 (- 1)) ''hello world'' = Inr [''hello'', ''world'']"
  by (simp add: with_config_def chunk_text_def py_range_def range_up.simps range_down.simps
      py_slice_def slice_index_def)

theorem add_document_rejects_empty_text_witness:
  "extract_text_from_file two_files ''/a/empty.txt'' = Some []
   \<and> reachable one_doc
   \<and> add_document two_files one_doc ''/a/empty.txt'' = (False, one_doc)
   \<and> length (documents (snd (add_document two_files one_doc ''/a/empty.txt''))) = 1
   \<and> map (\<lambda>(n, d). full_text d) (documents one_doc) = [''hello'']"
proof -
  have empty: "extract_text_from_file two_files ''/a/empty.txt'' = Some []"
    by code_simp
  from add_document_rejects_empty_text [OF empty one_doc_reachable, of one_doc]
  show ?thesis using empty one_doc_reachable by (simp add: one_doc_documents)
qed

theorem query_without_documents_witness:
  "documents (init ''key'' ''/tmp'') = []
   \<and> query (\<lambda>m prompt. Inr ''an answer'') (init ''key'' ''/tmp'') ''What is this?''
       = (''No documents have been added to the system.'', [])"
  using query_without_documents
          [of "init ''key'' ''/tmp''" "\<lambda>m prompt. Inr ''an answer''" "''What is this?''"]
  by (simp add: init_def)

theorem context_block_per_document_witness:
  "reachable one_doc
   \<and> documents one_doc
       = [(''notes.txt'',
           \<lparr>path = ''/a/notes.txt'', chunks = [''hello''], full_text = ''hello''\<rparr>)]
   \<and> build_context one_doc
       = ''Here are excerpts from relevant documents:\<newline>\<newline>''
         @ ''Document: notes.txt\<newline>Excerpt from beginning:\<newline>hello...\<newline>\<newline>''
   \<and> doc_block ''notes.txt''
         \<lparr>path = ''/a/notes.txt'', chunks = [''hello''], full_text = ''hello''\<rparr>
       = ''Document: notes.txt\<newline>Excerpt from beginning:\<newline>hello...\<newline>\<newline>''"
proof -
  have stored: "(''notes.txt'', \<lparr>path = ''/a/notes.txt'', chunks = [''hello''], full_text = ''hello''\<rparr>)
       \<in> set (documents one_doc)"
    by (simp add: one_doc_documents)
  from context_block_per_document [OF stored disjI1 [OF one_doc_reachable]]
  show ?thesis using one_doc_reachable by (simp add: one_doc_documents)
qed

theorem unsupported_extension_rejected_witness:
  "map_of supported_extensions (lower (lstrip_dots (snd (splitext ''/tmp/setup.exe'')))) = None
   \<and> extract_text_from_file two_files ''/tmp/setup.exe'' = None
   \<and> process_file (\<lambda>h p. Inr []) ''/tmp/setup.exe''
       = [(''success'', PyBool False), (''error'', PyStr ''Unsupported file type: exe''),
          (''file_path'', PyStr ''/tmp/setup.exe'')]
   \<and> add_document two_files one_doc ''/tmp/setup.exe'' = (False, one_doc)
   \<and> length (documents (snd (add_document two_files one_doc ''/tmp/setup.exe''))) = 1"
proof -
  have ext: "lower (lstrip_dots (snd (splitext ''/tmp/setup.exe''))) = ''exe''"
    by code_simp
  have unsupported:
    "map_of supported_extensions (lower (lstrip_dots (snd (splitext ''/tmp/setup.exe'')))) = None"
    unfolding ext by code_simp
  from unsupported_extension_rejected [OF unsupported, of two_files "\<lambda>h p. Inr []" one_doc]
  show ?thesis using unsupported by (simp add: ext one_doc_documents)
qed




end
